theory Spec2Isabelle
  imports Main "HOL-Library.Word"
begin

section \<open>JavaScript strings\<close>

text \<open>
  A JavaScript string is a sequence of UTF-16 code units. The regular expression of the
  source has no \<open>u\<close> flag, so it also works on code units. String literals of the source
  are ASCII; \<open>js\<close> turns an ASCII literal into its code units.
\<close>

type_synonym jschar = "16 word"
type_synonym jsstring = "jschar list"

definition js :: "string \<Rightarrow> jsstring" where
  "js s = map (\<lambda>c. of_nat (of_char c)) s"

text \<open>
  The class \<open>\s\<close> of a JavaScript regular expression, which is also the set that
  \<open>String.prototype.trim\<close> strips: the WhiteSpace and LineTerminator code points
  (TAB, LF, VT, FF, CR, SP, NBSP, U+1680, U+2000 to U+200A, LS, PS, U+202F, U+205F,
  U+3000, U+FEFF).
\<close>

definition isSpace :: "jschar \<Rightarrow> bool" where
  "isSpace c = (c \<in> set [9, 10, 11, 12, 13, 32, 160, 5760,
      8192, 8193, 8194, 8195, 8196, 8197, 8198, 8199, 8200, 8201, 8202,
      8232, 8233, 8239, 8287, 12288, 65279])"

definition CHAR_LF :: jschar where "CHAR_LF = 10"
definition CHAR_DOT :: jschar where "CHAR_DOT = 46"
definition CHAR_FORWARD_SLASH :: jschar where "CHAR_FORWARD_SLASH = 47"
definition CHAR_AT :: jschar where "CHAR_AT = 64"

text \<open>\<open>s.trim()\<close>\<close>

definition trim :: "jsstring \<Rightarrow> jsstring" where
  "trim s = rev (dropWhile isSpace (rev (dropWhile isSpace s)))"

text \<open>\<open>s.split(sep)\<close> for a separator of one code unit; the empty string gives \<open>['']\<close>.\<close>

fun split :: "jschar \<Rightarrow> jsstring \<Rightarrow> jsstring list" where
  "split sep [] = [[]]"
| "split sep (c # cs) =
     (if c = sep then [] # split sep cs
      else (case split sep cs of
              [] \<Rightarrow> [[c]]
            | l # ls \<Rightarrow> (c # l) # ls))"

text \<open>\<open>xs.join(sep)\<close>; the empty array gives the empty string.\<close>

fun join :: "jsstring \<Rightarrow> jsstring list \<Rightarrow> jsstring" where
  "join sep [] = []"
| "join sep [x] = x"
| "join sep (x # y # ys) = x @ sep @ join sep (y # ys)"

text \<open>
  \<open>line.match(/@([^\s]+)/)\<close>: the leftmost \<open>@\<close> that is followed by a code unit outside
  \<open>\s\<close>; the capture group is the longest run of such code units after it. \<open>None\<close> is
  the \<open>null\<close> of a failed match, \<open>Some p\<close> carries \<open>atMatch[1]\<close>.
\<close>

fun atMatch :: "jsstring \<Rightarrow> jsstring option" where
  "atMatch [] = None"
| "atMatch (c # cs) =
     (if c = CHAR_AT \<and> cs \<noteq> [] \<and> \<not> isSpace (hd cs)
      then Some (takeWhile (\<lambda>x. \<not> isSpace x) cs)
      else atMatch cs)"

text \<open>
  A prefix of a line in which the match cannot start, when an \<open>@\<close> follows the prefix:
  every \<open>@\<close> of the prefix is followed, inside the prefix, by a whitespace code unit.
  The predicate is used to say where on a line the leftmost match stands; the source has
  no counterpart of it.
\<close>

fun noMatchBefore :: "jsstring \<Rightarrow> bool" where
  "noMatchBefore [] = True"
| "noMatchBefore [c] = (c \<noteq> CHAR_AT)"
| "noMatchBefore (c # d # cs) = ((c \<noteq> CHAR_AT \<or> isSpace d) \<and> noMatchBefore (d # cs))"

section \<open>Node's \<open>path\<close> module (POSIX)\<close>

text \<open>
  \<open>path.dirname\<close>: the loop runs \<open>i\<close> from \<open>path.length - 1\<close> down to \<open>1\<close>, skips the
  trailing slashes and stops at the first slash after a code unit that is not one.
\<close>

fun dirnameScan :: "jsstring \<Rightarrow> nat \<Rightarrow> bool \<Rightarrow> nat option" where
  "dirnameScan path 0 matchedSlash = None"
| "dirnameScan path (Suc i) matchedSlash =
     (if path ! Suc i = CHAR_FORWARD_SLASH
      then (if \<not> matchedSlash then Some (Suc i) else dirnameScan path i matchedSlash)
      else dirnameScan path i False)"

definition dirname :: "jsstring \<Rightarrow> jsstring" where
  "dirname path =
     (if path = [] then js ''.''
      else (let hasRoot = (hd path = CHAR_FORWARD_SLASH) in
        case dirnameScan path (length path - 1) True of
          None \<Rightarrow> (if hasRoot then js ''/'' else js ''.'')
        | Some e \<Rightarrow> (if hasRoot \<and> e = 1 then js ''//'' else take e path)))"

text \<open>
  \<open>normalizeString\<close>, segment by segment: empty segments and \<open>.\<close> are dropped, \<open>..\<close>
  removes the segment before it (or is kept, above the root of a relative path), any other
  segment is appended.
\<close>

fun normalizeSegments :: "bool \<Rightarrow> jsstring list \<Rightarrow> jsstring list \<Rightarrow> jsstring list" where
  "normalizeSegments allowAboveRoot res [] = res"
| "normalizeSegments allowAboveRoot res (seg # segs) =
     (if seg = [] \<or> seg = [CHAR_DOT] then normalizeSegments allowAboveRoot res segs
      else if seg = [CHAR_DOT, CHAR_DOT] then
        (if res \<noteq> [] \<and> last res \<noteq> [CHAR_DOT, CHAR_DOT]
         then normalizeSegments allowAboveRoot (butlast res) segs
         else if allowAboveRoot
         then normalizeSegments allowAboveRoot (res @ [[CHAR_DOT, CHAR_DOT]]) segs
         else normalizeSegments allowAboveRoot res segs)
      else normalizeSegments allowAboveRoot (res @ [seg]) segs)"

definition normalizeString :: "jsstring \<Rightarrow> bool \<Rightarrow> jsstring" where
  "normalizeString path allowAboveRoot =
     join [CHAR_FORWARD_SLASH]
       (normalizeSegments allowAboveRoot [] (split CHAR_FORWARD_SLASH path))"

text \<open>
  \<open>path.resolve(...paths)\<close>: the arguments are taken from the last to the first, then the
  current working directory of the process, until an absolute path is built; empty
  arguments are skipped. The working directory is state of the process
  (\<open>process.cwd()\<close>); the model takes it as the argument \<open>cwd\<close>.
\<close>

fun resolveLoop :: "jsstring list \<Rightarrow> jsstring \<Rightarrow> jsstring \<times> bool" where
  "resolveLoop [] resolvedPath = (resolvedPath, False)"
| "resolveLoop (p # ps) resolvedPath =
     (if p = [] then resolveLoop ps resolvedPath
      else if hd p = CHAR_FORWARD_SLASH
      then (p @ [CHAR_FORWARD_SLASH] @ resolvedPath, True)
      else resolveLoop ps (p @ [CHAR_FORWARD_SLASH] @ resolvedPath))"

definition resolve :: "jsstring \<Rightarrow> jsstring list \<Rightarrow> jsstring" where
  "resolve cwd paths =
     (case resolveLoop (rev paths @ [cwd]) [] of
        (resolvedPath, resolvedAbsolute) \<Rightarrow>
          (let normalized = normalizeString resolvedPath (\<not> resolvedAbsolute) in
           if resolvedAbsolute then CHAR_FORWARD_SLASH # normalized
           else if normalized \<noteq> [] then normalized
           else js ''.''))"

section \<open>integration-tests/claude-compatibility.test.js\<close>

text \<open>
  \<open>files\<close> and \<open>importMap\<close> are objects with string values, read by key. A key that is
  missing reads as \<open>undefined\<close>: calling \<open>trim\<close> or \<open>split\<close> on it throws a TypeError,
  which ends the call with no output. (A key that only \<open>Object.prototype\<close> has reads as a
  value without these methods, and the call throws the same TypeError.)
\<close>

datatype error = TypeError

type_synonym jsobject = "jsstring \<rightharpoonup> jsstring"

subsection \<open>\<open>generateClaudeStyleOutput(files, processedFiles)\<close>\<close>

text \<open>The loop over \<open>processedFiles\<close>; its result is the array \<open>output\<close>.\<close>

fun claudeOutputArray :: "jsobject \<Rightarrow> jsstring list \<Rightarrow> error + jsstring list" where
  "claudeOutputArray files [] = Inr []"
| "claudeOutputArray files (filePath # rest) =
     (case files filePath of
        None \<Rightarrow> Inl TypeError
      | Some content \<Rightarrow>
          (case claudeOutputArray files rest of
             Inl e \<Rightarrow> Inl e
           | Inr output \<Rightarrow>
               Inr ([js ''--- File: '' @ filePath @ js '' ---'',
                     trim content,
                     js ''--- End of File: '' @ filePath @ js '' ---''] @ output)))"

definition generateClaudeStyleOutput :: "jsobject \<Rightarrow> jsstring list \<Rightarrow> error + jsstring" where
  "generateClaudeStyleOutput files processedFiles =
     (case claudeOutputArray files processedFiles of
        Inl e \<Rightarrow> Inl e
      | Inr output \<Rightarrow> Inr (join [CHAR_LF, CHAR_LF] output))"

subsection \<open>\<open>generateGeminiTreeOutput(files, processedFiles, importMap)\<close>\<close>

text \<open>
  The body of the loop over the lines of one file: what one line pushes to
  \<open>processedLines\<close>. An entry of \<open>importMap\<close> that is missing or the empty string is
  falsy. The key \<open>fullImportPath\<close> is an absolute path whenever the working directory
  is one, so it is never a key of \<open>Object.prototype\<close>.
\<close>

definition processLine :: "jsstring \<Rightarrow> jsstring \<Rightarrow> jsobject \<Rightarrow> jsstring \<Rightarrow> jsstring list" where
  "processLine cwd filePath importMap line =
     (case atMatch line of
        Some importPath \<Rightarrow>
          (let fullImportPath = resolve cwd [dirname filePath, importPath] in
           case importMap fullImportPath of
             Some imported \<Rightarrow>
               (if imported \<noteq> []
                then [js ''<!-- Imported from: '' @ importPath @ js '' -->'',
                      trim imported,
                      js ''<!-- End of import from: '' @ importPath @ js '' -->'']
                else [js ''<!-- Import failed: '' @ importPath @ js '' -->''])
           | None \<Rightarrow> [js ''<!-- Import failed: '' @ importPath @ js '' -->''])
      | None \<Rightarrow> [line])"

text \<open>The loop over the lines; its result is the array \<open>processedLines\<close>.\<close>

fun processLines :: "jsstring \<Rightarrow> jsstring \<Rightarrow> jsobject \<Rightarrow> jsstring list \<Rightarrow> jsstring list" where
  "processLines cwd filePath importMap [] = []"
| "processLines cwd filePath importMap (line # lines) =
     processLine cwd filePath importMap line @ processLines cwd filePath importMap lines"

text \<open>The loop over \<open>processedFiles\<close>; its result is the array \<open>output\<close>.\<close>

fun geminiOutputArray ::
  "jsstring \<Rightarrow> jsobject \<Rightarrow> jsstring list \<Rightarrow> jsobject \<Rightarrow> error + jsstring list" where
  "geminiOutputArray cwd files [] importMap = Inr []"
| "geminiOutputArray cwd files (filePath # rest) importMap =
     (case files filePath of
        None \<Rightarrow> Inl TypeError
      | Some content \<Rightarrow>
          (case geminiOutputArray cwd files rest importMap of
             Inl e \<Rightarrow> Inl e
           | Inr output \<Rightarrow>
               Inr (join [CHAR_LF]
                      (processLines cwd filePath importMap (split CHAR_LF content)) # output)))"

definition generateGeminiTreeOutput ::
  "jsstring \<Rightarrow> jsobject \<Rightarrow> jsstring list \<Rightarrow> jsobject \<Rightarrow> error + jsstring" where
  "generateGeminiTreeOutput cwd files processedFiles importMap =
     (case geminiOutputArray cwd files processedFiles importMap of
        Inl e \<Rightarrow> Inl e
      | Inr output \<Rightarrow> Inr (join [CHAR_LF, CHAR_LF] output))"

section \<open>scripts/find-claude-md-examples.cjs\<close>

text \<open>
  An entry of \<open>atImports\<close>; the fields \<open>line\<close>, \<open>import\<close> and \<open>context\<close> of the source
  are \<open>lineNo\<close>, \<open>importPath\<close> and \<open>lineContext\<close> here.
\<close>

record atImport =
  lineNo :: nat
  importPath :: jsstring
  lineContext :: jsstring

record analysis =
  repo :: jsstring
  filePath :: jsstring
  totalLines :: nat
  atImports :: "atImport list"
  hasImports :: bool
  importCount :: nat

text \<open>The loop of \<open>analyzeClaudeFile\<close> from index \<open>i\<close> on; it returns what it pushes.\<close>

fun scanLines :: "nat \<Rightarrow> jsstring list \<Rightarrow> atImport list" where
  "scanLines i [] = []"
| "scanLines i (l # ls) =
     (case atMatch l of
        Some p \<Rightarrow> \<lparr>lineNo = i + 1, importPath = p, lineContext = trim l\<rparr> # scanLines (i + 1) ls
      | None \<Rightarrow> scanLines (i + 1) ls)"

definition analyzeClaudeFile :: "jsstring \<Rightarrow> jsstring \<Rightarrow> jsstring \<Rightarrow> analysis" where
  "analyzeClaudeFile content r fp =
     (let lines = split CHAR_LF content;
          found = scanLines 0 lines
      in \<lparr>repo = r, filePath = fp, totalLines = length lines, atImports = found,
          hasImports = (length found > 0), importCount = length found\<rparr>)"

section \<open>Evaluation and auxiliary lemmas\<close>

lemmas js_eval = js_def isSpace_def CHAR_LF_def CHAR_DOT_def CHAR_FORWARD_SLASH_def CHAR_AT_def
  trim_def dirname_def normalizeString_def resolve_def processLine_def
  generateClaudeStyleOutput_def generateGeminiTreeOutput_def analyzeClaudeFile_def

lemma atMatch_SomeD:
  "atMatch line = Some p \<Longrightarrow>
     \<exists>pre post. line = pre @ CHAR_AT # p @ post \<and> p \<noteq> [] \<and> (\<forall>c\<in>set p. \<not> isSpace c)
        \<and> (post \<noteq> [] \<longrightarrow> isSpace (hd post))"
proof (induction line)
  case Nil
  then show ?case by simp
next
  case (Cons c cs)
  show ?case
  proof (cases "c = CHAR_AT \<and> cs \<noteq> [] \<and> \<not> isSpace (hd cs)")
    case True
    with Cons.prems have p: "p = takeWhile (\<lambda>x. \<not> isSpace x) cs" by simp
    let ?post = "dropWhile (\<lambda>x. \<not> isSpace x) cs"
    have 1: "c # cs = [] @ CHAR_AT # p @ ?post" using True p by simp
    have 2: "p \<noteq> []" using True p by (cases cs) auto
    have 3: "\<forall>c\<in>set p. \<not> isSpace c" using p by (auto dest: set_takeWhileD)
    have 4: "?post \<noteq> [] \<longrightarrow> isSpace (hd ?post)"
      using hd_dropWhile [of "\<lambda>x. \<not> isSpace x" cs] by auto
    from 1 2 3 4 show ?thesis by blast
  next
    case False
    with Cons.prems have "atMatch cs = Some p" by auto
    from Cons.IH [OF this] obtain pre post where
      "cs = pre @ CHAR_AT # p @ post" "p \<noteq> []" "\<forall>c\<in>set p. \<not> isSpace c"
      "post \<noteq> [] \<longrightarrow> isSpace (hd post)" by blast
    then have "c # cs = (c # pre) @ CHAR_AT # p @ post" by simp
    with \<open>p \<noteq> []\<close> \<open>\<forall>c\<in>set p. \<not> isSpace c\<close> \<open>post \<noteq> [] \<longrightarrow> isSpace (hd post)\<close>
    show ?thesis by blast
  qed
qed

lemma processLine_imported:
  "atMatch line = Some p \<Longrightarrow> importMap (resolve cwd [dirname fp, p]) = Some t \<Longrightarrow> t \<noteq> [] \<Longrightarrow>
     processLine cwd fp importMap line =
       [js ''<!-- Imported from: '' @ p @ js '' -->'', trim t,
        js ''<!-- End of import from: '' @ p @ js '' -->'']"
  by (simp add: processLine_def)

lemma processLine_failed:
  "atMatch line = Some p \<Longrightarrow>
     importMap (resolve cwd [dirname fp, p]) = None \<or> importMap (resolve cwd [dirname fp, p]) = Some [] \<Longrightarrow>
     processLine cwd fp importMap line = [js ''<!-- Import failed: '' @ p @ js '' -->'']"
  by (auto simp: processLine_def)

lemma processLine_literal:
  "atMatch line = None \<Longrightarrow> processLine cwd fp importMap line = [line]"
  by (simp add: processLine_def)

lemma processLines_append:
  "processLines cwd fp importMap (xs @ ys) = processLines cwd fp importMap xs @ processLines cwd fp importMap ys"
  by (induction xs) auto

lemma processLines_literal:
  "\<forall>l\<in>set ls. atMatch l = None \<Longrightarrow> processLines cwd fp importMap ls = ls"
  by (induction ls) (auto simp: processLine_literal)

lemma split_not_Nil: "split sep s \<noteq> []"
  by (induction s) (auto split: list.splits)

lemma join_Cons: "ys \<noteq> [] \<Longrightarrow> join sep (x # ys) = x @ sep @ join sep ys"
  by (cases ys) auto

lemma join_split: "join [sep] (split sep s) = s"
proof (induction s)
  case Nil then show ?case by simp
next
  case (Cons c cs)
  show ?case
  proof (cases "c = sep")
    case True
    then show ?thesis using Cons split_not_Nil [of sep cs] by (simp add: join_Cons)
  next
    case False
    obtain l ls where s: "split sep cs = l # ls" using split_not_Nil [of sep cs] by (cases "split sep cs") auto
    with Cons have "join [sep] (l # ls) = cs" by simp
    then have "join [sep] ((c # l) # ls) = c # cs" by (cases ls) auto
    with False s show ?thesis by simp
  qed
qed

lemma claudeOutputArray_Inr:
  "\<forall>fp\<in>set pfs. files fp \<noteq> None \<Longrightarrow>
     claudeOutputArray files pfs =
       Inr (concat (map (\<lambda>fp. [js ''--- File: '' @ fp @ js '' ---'', trim (the (files fp)),
                               js ''--- End of File: '' @ fp @ js '' ---'']) pfs))"
  by (induction pfs) auto

lemma claudeOutputArray_Inl:
  "claudeOutputArray files pfs = Inl e \<longleftrightarrow> (\<exists>fp\<in>set pfs. files fp = None)"
  by (induction pfs) (auto split: option.splits sum.splits, (cases e, simp)+)

lemma geminiOutputArray_Inr:
  "\<forall>fp\<in>set pfs. files fp \<noteq> None \<Longrightarrow>
     geminiOutputArray cwd files pfs importMap =
       Inr (map (\<lambda>fp. join [CHAR_LF] (processLines cwd fp importMap (split CHAR_LF (the (files fp))))) pfs)"
  by (induction pfs) auto

lemma geminiOutputArray_Inl:
  "geminiOutputArray cwd files pfs importMap = Inl e \<longleftrightarrow> (\<exists>fp\<in>set pfs. files fp = None)"
  by (induction pfs) (auto split: option.splits sum.splits, (cases e, simp)+)

lemma dirnameScan_pos: "dirnameScan path i b = Some e \<Longrightarrow> 0 < e \<and> e \<le> i"
  by (induction path i b rule: dirnameScan.induct) (auto split: if_splits)

lemma dirname_absolute:
  assumes "path \<noteq> []" "hd path = CHAR_FORWARD_SLASH"
  shows "dirname path \<noteq> [] \<and> hd (dirname path) = CHAR_FORWARD_SLASH"
proof (cases "dirnameScan path (length path - 1) True")
  case None
  with assms show ?thesis by (simp add: dirname_def js_def CHAR_FORWARD_SLASH_def)
next
  case (Some e)
  then have "0 < e" using dirnameScan_pos by blast
  with assms Some show ?thesis
    by (cases path) (auto simp: dirname_def js_def CHAR_FORWARD_SLASH_def hd_take)
qed

lemma resolve_absolute_dir:
  "d \<noteq> [] \<Longrightarrow> hd d = CHAR_FORWARD_SLASH \<Longrightarrow> p \<noteq> [] \<Longrightarrow>
     resolve cwd1 [d, p] = resolve cwd2 [d, p]"
  by (simp add: resolve_def)

lemma atMatch_nonempty: "atMatch line = Some p \<Longrightarrow> p \<noteq> []"
  using atMatch_SomeD by blast

lemma processLine_cwd:
  assumes "fp \<noteq> []" "hd fp = CHAR_FORWARD_SLASH"
  shows "processLine cwd1 fp importMap line = processLine cwd2 fp importMap line"
proof (cases "atMatch line")
  case None
  then show ?thesis by (simp add: processLine_def)
next
  case (Some p)
  then have "p \<noteq> []" by (rule atMatch_nonempty)
  with dirname_absolute [OF assms]
  have "resolve cwd1 [dirname fp, p] = resolve cwd2 [dirname fp, p]"
    by (intro resolve_absolute_dir) auto
  with Some show ?thesis by (simp add: processLine_def)
qed

lemma processLines_cwd:
  "fp \<noteq> [] \<Longrightarrow> hd fp = CHAR_FORWARD_SLASH \<Longrightarrow>
     processLines cwd1 fp importMap ls = processLines cwd2 fp importMap ls"
  by (induction ls) (auto simp: processLine_cwd)

lemma geminiOutputArray_cwd:
  "\<forall>fp\<in>set pfs. fp \<noteq> [] \<and> hd fp = CHAR_FORWARD_SLASH \<Longrightarrow>
     geminiOutputArray cwd1 files pfs importMap = geminiOutputArray cwd2 files pfs importMap"
proof (induction pfs)
  case Nil then show ?case by simp
next
  case (Cons fp pfs)
  then have "fp \<noteq> []" "hd fp = CHAR_FORWARD_SLASH" by auto
  then have *: "processLines cwd1 fp importMap = processLines cwd2 fp importMap"
    by (intro ext processLines_cwd)
  from Cons have "geminiOutputArray cwd1 files pfs importMap = geminiOutputArray cwd2 files pfs importMap"
    by simp
  with * show ?case by (simp split: option.splits sum.splits)
qed

lemma concat_triples_nth:
  "i < length xs \<Longrightarrow>
     concat (map (\<lambda>x. [a x, b x, c x]) xs) ! (3 * i) = a (xs ! i) \<and>
     concat (map (\<lambda>x. [a x, b x, c x]) xs) ! (3 * i + 1) = b (xs ! i) \<and>
     concat (map (\<lambda>x. [a x, b x, c x]) xs) ! (3 * i + 2) = c (xs ! i)"
proof (induction xs arbitrary: i)
  case Nil then show ?case by simp
next
  case (Cons x xs)
  show ?case
  proof (cases i)
    case 0 then show ?thesis by simp
  next
    case (Suc j)
    with Cons.prems have "j < length xs" by simp
    from Cons.IH [OF this] show ?thesis using Suc by (simp add: numeral_3_eq_3)
  qed
qed

lemma concat_triples_length: "length (concat (map (\<lambda>x. [a x, b x, c x]) xs)) = 3 * length xs"
  by (induction xs) auto

lemma filter_by_index:
  "length (filter (\<lambda>i. P (xs ! i)) [0..<length xs]) = length (filter P xs)"
proof (induction xs rule: rev_induct)
  case Nil then show ?case by simp
next
  case (snoc x xs)
  have "filter (\<lambda>i. P ((xs @ [x]) ! i)) [0..<length xs] = filter (\<lambda>i. P (xs ! i)) [0..<length xs]"
    by (rule filter_cong) (auto simp: nth_append)
  with snoc show ?case by simp
qed

lemma count_list_filter: "count_list xs p = length (filter (\<lambda>y. y = p) xs)"
  by (induction xs) auto

lemma count_by_index:
  "length (filter (\<lambda>i. xs ! i = p) [0..<length xs]) = count_list xs p"
  using filter_by_index [of "\<lambda>y. y = p" xs] by (simp add: count_list_filter)

lemma scanLines_entries:
  "e \<in> set (scanLines i ls) \<Longrightarrow>
     i < lineNo e \<and> lineNo e \<le> i + length ls \<and>
     atMatch (ls ! (lineNo e - i - 1)) = Some (importPath e) \<and>
     lineContext e = trim (ls ! (lineNo e - i - 1))"
proof (induction ls arbitrary: i)
  case Nil then show ?case by simp
next
  case (Cons l ls)
  have later: ?case if "e \<in> set (scanLines (i + 1) ls)"
  proof -
    from Cons.IH [OF that] have ih: "i + 1 < lineNo e" "lineNo e \<le> i + 1 + length ls"
      "atMatch (ls ! (lineNo e - (i + 1) - 1)) = Some (importPath e)"
      "lineContext e = trim (ls ! (lineNo e - (i + 1) - 1))" by auto
    from ih(1) have "lineNo e - i - 1 = Suc (lineNo e - (i + 1) - 1)" by arith
    with ih show ?thesis by simp
  qed
  show ?case
  proof (cases "atMatch l")
    case None
    with Cons.prems have "e \<in> set (scanLines (i + 1) ls)" by simp
    then show ?thesis by (rule later)
  next
    case (Some p)
    with Cons.prems consider "e = \<lparr>lineNo = i + 1, importPath = p, lineContext = trim l\<rparr>"
      | "e \<in> set (scanLines (i + 1) ls)" by auto
    then show ?thesis
    proof cases
      case 1 with Some show ?thesis by simp
    next
      case 2 then show ?thesis by (rule later)
    qed
  qed
qed

lemma claudeOutputArray_blocks:
  assumes "claudeOutputArray files pfs = Inr output"
  shows "output = concat (map (\<lambda>fp. [js ''--- File: '' @ fp @ js '' ---'', trim (the (files fp)),
                               js ''--- End of File: '' @ fp @ js '' ---'']) pfs)
         \<and> (\<forall>fp\<in>set pfs. files fp \<noteq> None)"
proof -
  have "\<not> (\<exists>fp\<in>set pfs. files fp = None)"
    using assms claudeOutputArray_Inl [of files pfs TypeError]
    by (metis Inl_Inr_False error.exhaust)
  then have d: "\<forall>fp\<in>set pfs. files fp \<noteq> None" by simp
  from claudeOutputArray_Inr [OF d] assms show ?thesis using d by simp
qed

lemma count_list_distinct: "distinct xs \<Longrightarrow> p \<in> set xs \<Longrightarrow> count_list xs p = 1"
  by (induction xs) auto

lemma atMatch_no_at: "CHAR_AT \<notin> set xs \<Longrightarrow> atMatch (xs @ zs) = atMatch zs"
  by (induction xs) auto

lemma takeWhile_run:
  "\<forall>c\<in>set p. \<not> isSpace c \<Longrightarrow> ys \<noteq> [] \<Longrightarrow> isSpace (hd ys) \<Longrightarrow>
     takeWhile (\<lambda>x. \<not> isSpace x) (p @ ys) = p"
  by (cases ys) (auto simp: takeWhile_append2)

lemma atMatch_inside_run:
  "\<forall>c\<in>set p. \<not> isSpace c \<Longrightarrow> ys \<noteq> [] \<Longrightarrow> isSpace (hd ys) \<Longrightarrow> CHAR_AT \<notin> set ys \<Longrightarrow>
     atMatch (p @ ys) = Some q \<Longrightarrow> length q < length p"
proof (induction p)
  case Nil
  then show ?case using atMatch_no_at [of ys "[]"] by simp
next
  case (Cons a p)
  show ?case
  proof (cases "a = CHAR_AT \<and> p @ ys \<noteq> [] \<and> \<not> isSpace (hd (p @ ys))")
    case True
    with Cons.prems(5) have "q = takeWhile (\<lambda>x. \<not> isSpace x) (p @ ys)" by simp
    also have "\<dots> = p" using Cons.prems by (intro takeWhile_run) auto
    finally show ?thesis by simp
  next
    case False
    with Cons.prems(5) have "atMatch (p @ ys) = Some q" by auto
    with Cons.IH Cons.prems have "length q < length p" by simp
    then show ?thesis by simp
  qed
qed

lemma failed_marker_differs:
  assumes "atMatch line = Some p"
  shows "js ''<!-- Import failed: '' @ p @ js '' -->'' \<noteq> line"
proof
  assume eq: "js ''<!-- Import failed: '' @ p @ js '' -->'' = line"
  from atMatch_SomeD [OF assms] have ns: "\<forall>c\<in>set p. \<not> isSpace c" by blast
  have "atMatch (js ''<!-- Import failed: '' @ (p @ js '' -->'')) = atMatch (p @ js '' -->'')"
    by (rule atMatch_no_at) (simp add: js_def CHAR_AT_def)
  with eq assms have "atMatch (p @ js '' -->'') = Some p" by simp
  moreover have "js '' -->'' \<noteq> []" "isSpace (hd (js '' -->''))" "CHAR_AT \<notin> set (js '' -->'')"
    by (simp_all add: js_def isSpace_def CHAR_AT_def)
  ultimately have "length p < length p" using ns by (intro atMatch_inside_run)
  then show False by simp
qed

lemma processLine_not_literal:
  assumes "atMatch line = Some p"
  shows "processLine cwd fp importMap line \<noteq> [line]"
  using assms failed_marker_differs [OF assms]
  by (auto simp: processLine_def split: option.splits)

lemma scanLines_append:
  "scanLines i (xs @ ys) = scanLines i xs @ scanLines (i + length xs) ys"
  by (induction xs arbitrary: i) (auto split: option.splits)

text \<open>
  The working directory of a process is an absolute path, and then so is every resolved
  path: the key under which \<open>importMap\<close> is read starts with a slash.
\<close>

lemma resolveLoop_absolute:
  "\<exists>p\<in>set ps. p \<noteq> [] \<and> hd p = CHAR_FORWARD_SLASH \<Longrightarrow> snd (resolveLoop ps acc)"
  by (induction ps arbitrary: acc) auto

lemma resolve_absolute:
  assumes "cwd \<noteq> []" "hd cwd = CHAR_FORWARD_SLASH"
  shows "resolve cwd paths \<noteq> [] \<and> hd (resolve cwd paths) = CHAR_FORWARD_SLASH"
proof -
  have "snd (resolveLoop (rev paths @ [cwd]) [])"
    using assms by (intro resolveLoop_absolute) auto
  then show ?thesis by (auto simp: resolve_def Let_def split: prod.splits)
qed

text \<open>
  So an import map whose keys are relative paths, such as \<open>TEST_FILES\<close> of the source,
  never has the resolved path of a directive: every directive is rendered as a failed
  import.
\<close>

lemma processLine_relative_keys:
  assumes "cwd \<noteq> []" "hd cwd = CHAR_FORWARD_SLASH"
    and "\<forall>k\<in>dom importMap. k = [] \<or> hd k \<noteq> CHAR_FORWARD_SLASH"
    and "atMatch line = Some p"
  shows "processLine cwd fp importMap line = [js ''<!-- Import failed: '' @ p @ js '' -->'']"
proof -
  from resolve_absolute [OF assms(1,2), of "[dirname fp, p]"] assms(3)
  have "resolve cwd [dirname fp, p] \<notin> dom importMap" by blast
  then have "importMap (resolve cwd [dirname fp, p]) = None" by blast
  with assms(4) show ?thesis by (simp add: processLine_def)
qed

lemma not_isSpace_at: "\<not> isSpace CHAR_AT"
  by (simp add: isSpace_def CHAR_AT_def)

lemma atMatch_leftmost:
  "noMatchBefore pre \<Longrightarrow> \<not> isSpace c \<Longrightarrow>
     atMatch (pre @ CHAR_AT # c # rest) = Some (takeWhile (\<lambda>x. \<not> isSpace x) (c # rest))"
  by (induction pre rule: noMatchBefore.induct) (auto simp: not_isSpace_at)

lemma atMatch_decompose:
  "atMatch line = Some p \<Longrightarrow>
     \<exists>pre c rest. line = pre @ CHAR_AT # c # rest \<and> noMatchBefore pre \<and> \<not> isSpace c
        \<and> p = takeWhile (\<lambda>x. \<not> isSpace x) (c # rest)"
proof (induction line)
  case Nil
  then show ?case by simp
next
  case (Cons x xs)
  show ?case
  proof (cases "x = CHAR_AT \<and> xs \<noteq> [] \<and> \<not> isSpace (hd xs)")
    case True
    then obtain c rest where xs: "xs = c # rest" by (cases xs) auto
    with True Cons.prems have "x # xs = [] @ CHAR_AT # c # rest" "noMatchBefore []" "\<not> isSpace c"
      "p = takeWhile (\<lambda>x. \<not> isSpace x) (c # rest)" by auto
    then show ?thesis by blast
  next
    case False
    with Cons.prems have "atMatch xs = Some p" by auto
    from Cons.IH [OF this] obtain pre c rest where d: "xs = pre @ CHAR_AT # c # rest"
      "noMatchBefore pre" "\<not> isSpace c" "p = takeWhile (\<lambda>x. \<not> isSpace x) (c # rest)" by blast
    have "noMatchBefore (x # pre)"
    proof (cases pre)
      case Nil
      with d(1) False show ?thesis by (auto simp: not_isSpace_at)
    next
      case (Cons e es)
      with d(1,2) False show ?thesis by auto
    qed
    with d have "x # xs = (x # pre) @ CHAR_AT # c # rest \<and> noMatchBefore (x # pre) \<and> \<not> isSpace c
        \<and> p = takeWhile (\<lambda>x. \<not> isSpace x) (c # rest)" by simp
    then show ?thesis by blast
  qed
qed

lemma geminiOutputArray_nth:
  assumes "geminiOutputArray cwd files pfs importMap = Inr output"
  shows "length output = length pfs
         \<and> (\<forall>i<length pfs. \<exists>content. files (pfs ! i) = Some content
               \<and> output ! i = join [CHAR_LF] (processLines cwd (pfs ! i) importMap (split CHAR_LF content)))"
proof -
  have "\<not> (\<exists>fp\<in>set pfs. files fp = None)"
    using assms geminiOutputArray_Inl [of cwd files pfs importMap TypeError]
    by (metis Inl_Inr_False error.exhaust)
  then have d: "\<forall>fp\<in>set pfs. files fp \<noteq> None" by simp
  from geminiOutputArray_Inr [OF d, of cwd importMap] assms
  have out: "output = map (\<lambda>fp. join [CHAR_LF] (processLines cwd fp importMap (split CHAR_LF (the (files fp))))) pfs"
    by simp
  have "\<exists>content. files (pfs ! i) = Some content
               \<and> output ! i = join [CHAR_LF] (processLines cwd (pfs ! i) importMap (split CHAR_LF content))"
    if "i < length pfs" for i
  proof -
    from d that obtain content where c: "files (pfs ! i) = Some content"
      by (metis nth_mem option.exhaust)
    with that show ?thesis unfolding out by simp
  qed
  with out show ?thesis by simp
qed

lemma processLines_directive:
  assumes "atMatch line = Some p"
    and "importMap (resolve cwd [dirname fp, p]) = Some t"
    and "t \<noteq> []"
  shows "processLines cwd fp importMap (before @ [line] @ after) =
           processLines cwd fp importMap before
           @ [js ''<!-- Imported from: '' @ p @ js '' -->'', trim t,
              js ''<!-- End of import from: '' @ p @ js '' -->'']
           @ processLines cwd fp importMap after"
proof -
  have "processLine cwd fp importMap line =
       [js ''<!-- Imported from: '' @ p @ js '' -->'', trim t,
        js ''<!-- End of import from: '' @ p @ js '' -->'']"
    using assms by (rule processLine_imported)
  then show ?thesis by (simp add: processLines_append)
qed

lemma generateGeminiTreeOutput_single:
  "files fp = Some content \<Longrightarrow>
     generateGeminiTreeOutput cwd files [fp] importMap =
       Inr (join [CHAR_LF] (processLines cwd fp importMap (split CHAR_LF content)))"
  by (simp add: generateGeminiTreeOutput_def)

lemma processLine_cong_map:
  assumes "\<forall>q. atMatch l = Some q \<longrightarrow>
             m (resolve cwd [dirname fp, q]) = importMap (resolve cwd [dirname fp, q])"
  shows "processLine cwd fp m l = processLine cwd fp importMap l"
proof (cases "atMatch l")
  case None
  then show ?thesis by (simp add: processLine_def)
next
  case (Some q)
  with assms have "m (resolve cwd [dirname fp, q]) = importMap (resolve cwd [dirname fp, q])" by simp
  with Some show ?thesis by (simp add: processLine_def)
qed

lemma processLines_cong_map:
  "\<forall>l\<in>set ls. \<forall>q. atMatch l = Some q \<longrightarrow>
       m (resolve cwd [dirname fp, q]) = importMap (resolve cwd [dirname fp, q]) \<Longrightarrow>
     processLines cwd fp m ls = processLines cwd fp importMap ls"
proof (induction ls)
  case Nil
  then show ?case by simp
next
  case (Cons l ls)
  then have "processLine cwd fp m l = processLine cwd fp importMap l"
    by (intro processLine_cong_map) simp
  with Cons show ?case by simp
qed




lemma filter_none: "\<forall>x\<in>set xs. \<not> P x \<Longrightarrow> filter P xs = []"
  by (induction xs) auto

lemma scanLines_line_filter:
  assumes "atMatch line = Some p"
  shows "filter (\<lambda>e. lineNo e = i + length before + 1) (scanLines i (before @ [line] @ after))
         = [\<lparr>lineNo = i + length before + 1, importPath = p, lineContext = trim line\<rparr>]"
proof -
  have s: "scanLines i (before @ [line] @ after) =
        scanLines i before
        @ \<lparr>lineNo = i + length before + 1, importPath = p, lineContext = trim line\<rparr>
        # scanLines (i + length before + 1) after"
    using assms by (simp add: scanLines_append)
  have 1: "filter (\<lambda>e. lineNo e = i + length before + 1) (scanLines i before) = []"
  proof (rule filter_none, rule ballI)
    fix e assume "e \<in> set (scanLines i before)"
    from scanLines_entries [OF this] show "\<not> lineNo e = i + length before + 1" by simp
  qed
  have 2: "filter (\<lambda>e. lineNo e = i + length before + 1) (scanLines (i + length before + 1) after) = []"
  proof (rule filter_none, rule ballI)
    fix e assume "e \<in> set (scanLines (i + length before + 1) after)"
    from scanLines_entries [OF this] show "\<not> lineNo e = i + length before + 1" by simp
  qed
  from 1 2 show ?thesis unfolding s by simp
qed

section \<open>Properties of the renderers\<close>

subsection \<open>Hierarchical substitution\<close>

text \<open>
  C1, as amended. In hierarchical mode the output for a document is its lines, where a
  line whose first directive resolves to a non-empty entry of the import map is replaced,
  as a whole line, by three lines: the begin marker, the entry's text with the whitespace
  around it trimmed, and the end marker. The text is the raw text of the entry:
  directives inside it are not expanded. The output is the same for every import map that
  agrees with this one on the resolved paths of the directives written in the document
  itself; entries that only a directive of an imported text refers to are never read.
\<close>

theorem hierarchical_substitutes_raw_text:
  assumes "files fp = Some content"
    and "split CHAR_LF content = before @ [line] @ after"
    and "atMatch line = Some p"
    and "importMap (resolve cwd [dirname fp, p]) = Some t"
    and "t \<noteq> []"
  shows "generateGeminiTreeOutput cwd files [fp] importMap =
           Inr (join [CHAR_LF]
                 (processLines cwd fp importMap before
                  @ [js ''<!-- Imported from: '' @ p @ js '' -->'', trim t,
                     js ''<!-- End of import from: '' @ p @ js '' -->'']
                  @ processLines cwd fp importMap after))
         \<and> (\<forall>m. (\<forall>l\<in>set (split CHAR_LF content). \<forall>q. atMatch l = Some q \<longrightarrow>
                    m (resolve cwd [dirname fp, q]) = importMap (resolve cwd [dirname fp, q]))
                \<longrightarrow> generateGeminiTreeOutput cwd files [fp] m
                    = generateGeminiTreeOutput cwd files [fp] importMap)"
proof -
  have 1: "generateGeminiTreeOutput cwd files [fp] importMap =
           Inr (join [CHAR_LF]
                 (processLines cwd fp importMap before
                  @ [js ''<!-- Imported from: '' @ p @ js '' -->'', trim t,
                     js ''<!-- End of import from: '' @ p @ js '' -->'']
                  @ processLines cwd fp importMap after))"
    using processLines_directive [of line p importMap cwd fp t before after] assms
    by (simp add: generateGeminiTreeOutput_single)
  have 2: "generateGeminiTreeOutput cwd files [fp] m = generateGeminiTreeOutput cwd files [fp] importMap"
    if "\<forall>l\<in>set (split CHAR_LF content). \<forall>q. atMatch l = Some q \<longrightarrow>
                    m (resolve cwd [dirname fp, q]) = importMap (resolve cwd [dirname fp, q])" for m
    using processLines_cong_map [OF that] assms(1) by (simp add: generateGeminiTreeOutput_single)
  from 1 2 show ?thesis by blast
qed

text \<open>
  The theorem at a document that imports a header whose text holds a directive of its
  own: the directive stays in the output as it is written.
\<close>

theorem hierarchical_substitutes_raw_text_witness:
  "generateGeminiTreeOutput (js ''/'')
     (map_of [(js ''/main.md'', js ''Main\<newline>@./header.md\<newline>End'')])
     [js ''/main.md'']
     (map_of [(js ''/header.md'', js ''Header\<newline>@./title.md\<newline>''), (js ''/title.md'', js ''Title'')])
   = Inr (js ''Main\<newline><!-- Imported from: ./header.md -->\<newline>Header\<newline>@./title.md\<newline><!-- End of import from: ./header.md -->\<newline>End'')"
proof -
  let ?files = "map_of [(js ''/main.md'', js ''Main\<newline>@./header.md\<newline>End'')]"
  let ?m = "map_of [(js ''/header.md'', js ''Header\<newline>@./title.md\<newline>''), (js ''/title.md'', js ''Title'')]"
  have h0: "?files (js ''/main.md'') = Some (js ''Main\<newline>@./header.md\<newline>End'')" by simp
  have h1: "split CHAR_LF (js ''Main\<newline>@./header.md\<newline>End'') = [js ''Main''] @ [js ''@./header.md''] @ [js ''End'']"
    by (simp add: js_eval)
  have h2: "atMatch (js ''@./header.md'') = Some (js ''./header.md'')" by (simp add: js_eval)
  have r: "resolve (js ''/'') [dirname (js ''/main.md''), js ''./header.md''] = js ''/header.md''"
    by (simp add: js_eval)
  have h3: "?m (resolve (js ''/'') [dirname (js ''/main.md''), js ''./header.md''])
      = Some (js ''Header\<newline>@./title.md\<newline>'')"
    by (simp add: r)
  have h4: "js ''Header\<newline>@./title.md\<newline>'' \<noteq> []" by (simp add: js_def)
  have e: "join [CHAR_LF]
                 (processLines (js ''/'') (js ''/main.md'') ?m [js ''Main'']
                  @ [js ''<!-- Imported from: '' @ js ''./header.md'' @ js '' -->'', trim (js ''Header\<newline>@./title.md\<newline>''),
                     js ''<!-- End of import from: '' @ js ''./header.md'' @ js '' -->'']
                  @ processLines (js ''/'') (js ''/main.md'') ?m [js ''End''])
     = js ''Main\<newline><!-- Imported from: ./header.md -->\<newline>Header\<newline>@./title.md\<newline><!-- End of import from: ./header.md -->\<newline>End''"
    by (simp add: js_eval)
  from hierarchical_substitutes_raw_text [where importMap = ?m and files = ?files, OF h0 h1 h2 h3 h4] e
  show ?thesis by simp
qed

text \<open>
  C1 as stated fails. \<open>main\<close> imports \<open>header\<close>, \<open>header\<close> imports \<open>title\<close>, and all
  three are in the import map: the output for \<open>main\<close> holds the raw text of \<open>header\<close>,
  with \<open>@./title.md\<close> unexpanded, and differs from the recursively rendered text.
\<close>

theorem nested_directive_not_expanded_counterexample:
  "generateGeminiTreeOutput (js ''/'')
     (map_of [(js ''/main.md'', js ''Main\<newline>@./header.md\<newline>End''),
              (js ''/header.md'', js ''Header\<newline>@./title.md''),
              (js ''/title.md'', js ''Title'')])
     [js ''/main.md'']
     (map_of [(js ''/main.md'', js ''Main\<newline>@./header.md\<newline>End''),
              (js ''/header.md'', js ''Header\<newline>@./title.md''),
              (js ''/title.md'', js ''Title'')])
   = Inr (js ''Main\<newline><!-- Imported from: ./header.md -->\<newline>Header\<newline>@./title.md\<newline><!-- End of import from: ./header.md -->\<newline>End'')
   \<and> generateGeminiTreeOutput (js ''/'')
     (map_of [(js ''/main.md'', js ''Main\<newline>@./header.md\<newline>End''),
              (js ''/header.md'', js ''Header\<newline>@./title.md''),
              (js ''/title.md'', js ''Title'')])
     [js ''/main.md'']
     (map_of [(js ''/main.md'', js ''Main\<newline>@./header.md\<newline>End''),
              (js ''/header.md'', js ''Header\<newline>@./title.md''),
              (js ''/title.md'', js ''Title'')])
   \<noteq> Inr (js ''Main\<newline><!-- Imported from: ./header.md -->\<newline>Header\<newline><!-- Imported from: ./title.md -->\<newline>Title\<newline><!-- End of import from: ./title.md -->\<newline><!-- End of import from: ./header.md -->\<newline>End'')"
  by (simp add: js_eval)

subsection \<open>Flat mode: one block per entry of \<open>processedFiles\<close>\<close>

text \<open>
  C2, as amended. In flat mode the array \<open>output\<close> holds exactly one boundary block of
  three elements per entry of \<open>processedFiles\<close>: the number of blocks opened with the
  marker of a path \<open>p\<close> is the number of times \<open>p\<close> occurs in \<open>processedFiles\<close>. A
  document has exactly one block when the caller lists it once; the renderer removes no
  duplicate.
\<close>

theorem flat_one_block_per_entry:
  assumes "claudeOutputArray files processedFiles = Inr output"
  shows "length output = 3 * length processedFiles
         \<and> length (filter (\<lambda>i. output ! (3 * i) = js ''--- File: '' @ p @ js '' ---'')
                     [0..<length processedFiles])
             = count_list processedFiles p
         \<and> (distinct processedFiles \<and> p \<in> set processedFiles \<longrightarrow>
              length (filter (\<lambda>i. output ! (3 * i) = js ''--- File: '' @ p @ js '' ---'')
                     [0..<length processedFiles]) = 1)"
proof -
  let ?a = "\<lambda>fp. js ''--- File: '' @ fp @ js '' ---''"
  let ?b = "\<lambda>fp. trim (the (files fp))"
  let ?c = "\<lambda>fp. js ''--- End of File: '' @ fp @ js '' ---''"
  from claudeOutputArray_blocks [OF assms]
  have out: "output = concat (map (\<lambda>fp. [?a fp, ?b fp, ?c fp]) processedFiles)" by simp
  have len: "length output = 3 * length processedFiles"
    unfolding out by (rule concat_triples_length)
  have "filter (\<lambda>i. output ! (3 * i) = ?a p) [0..<length processedFiles]
        = filter (\<lambda>i. processedFiles ! i = p) [0..<length processedFiles]"
  proof (rule filter_cong [OF refl])
    fix i assume "i \<in> set [0..<length processedFiles]"
    then have "i < length processedFiles" by simp
    from concat_triples_nth [OF this, of ?a ?b ?c]
    have "output ! (3 * i) = ?a (processedFiles ! i)" unfolding out by simp
    then show "(output ! (3 * i) = ?a p) = (processedFiles ! i = p)" by simp
  qed
  then have cnt: "length (filter (\<lambda>i. output ! (3 * i) = ?a p) [0..<length processedFiles])
        = count_list processedFiles p"
    by (simp add: count_by_index)
  from len cnt show ?thesis by (simp add: count_list_distinct)
qed

text \<open>
  The theorem at a list without duplicates: \<open>dup.md\<close> refers to \<open>config.md\<close> twice,
  the caller lists \<open>config.md\<close> once, and one block is emitted for it.
\<close>

theorem flat_one_block_per_entry_witness:
  "claudeOutputArray
      (map_of [(js ''dup.md'', js ''@./config.md\<newline>text\<newline>@./config.md''), (js ''config.md'', js ''Config'')])
      [js ''dup.md'', js ''config.md'']
    = Inr [js ''--- File: dup.md ---'', js ''@./config.md\<newline>text\<newline>@./config.md'', js ''--- End of File: dup.md ---'',
           js ''--- File: config.md ---'', js ''Config'', js ''--- End of File: config.md ---'']
   \<and> length (filter (\<lambda>i. [js ''--- File: dup.md ---'', js ''@./config.md\<newline>text\<newline>@./config.md'', js ''--- End of File: dup.md ---'',
           js ''--- File: config.md ---'', js ''Config'', js ''--- End of File: config.md ---''] ! (3 * i)
             = js ''--- File: '' @ js ''config.md'' @ js '' ---'') [0..<length [js ''dup.md'', js ''config.md'']]) = 1"
proof -
  let ?files = "map_of [(js ''dup.md'', js ''@./config.md\<newline>text\<newline>@./config.md''), (js ''config.md'', js ''Config'')]"
  let ?out = "[js ''--- File: dup.md ---'', js ''@./config.md\<newline>text\<newline>@./config.md'', js ''--- End of File: dup.md ---'',
           js ''--- File: config.md ---'', js ''Config'', js ''--- End of File: config.md ---'']"
  have h: "claudeOutputArray ?files [js ''dup.md'', js ''config.md''] = Inr ?out"
    by (simp add: js_eval)
  have d: "distinct [js ''dup.md'', js ''config.md''] \<and> js ''config.md'' \<in> set [js ''dup.md'', js ''config.md'']"
    by (simp add: js_def)
  from flat_one_block_per_entry [OF h, of "js ''config.md''"] d h
  show ?thesis by blast
qed

text \<open>
  C2 as stated fails. When the list holds \<open>config.md\<close> twice, one entry per encounter,
  the second encounter emits the markers and the content again.
\<close>

theorem flat_duplicate_entry_emitted_twice_counterexample:
  "generateClaudeStyleOutput
      (map_of [(js ''dup.md'', js ''@./config.md\<newline>text\<newline>@./config.md''), (js ''config.md'', js ''Config'')])
      [js ''dup.md'', js ''config.md'', js ''config.md'']
    = Inr (js ''--- File: dup.md ---\<newline>\<newline>@./config.md\<newline>text\<newline>@./config.md\<newline>\<newline>--- End of File: dup.md ---\<newline>\<newline>--- File: config.md ---\<newline>\<newline>Config\<newline>\<newline>--- End of File: config.md ---\<newline>\<newline>--- File: config.md ---\<newline>\<newline>Config\<newline>\<newline>--- End of File: config.md ---'')"
  by (simp add: js_eval)

subsection \<open>Cyclic references\<close>




subsection \<open>Code regions\<close>

text \<open>
  C4, as amended. Directive recognition looks at one line at a time and at nothing but
  the first \<open>@\<close> followed by a code unit that is not whitespace: whatever stands before
  it on the line (a backtick of an inline code span, or an earlier \<open>@\<close> followed by
  whitespace) and whatever lines stand before and after it (fence lines included), the
  line is recognized as a directive, it does not stay literal in the hierarchical output
  of the document, and \<open>analyzeClaudeFile\<close> reports it as an import.
\<close>

theorem directive_recognized_inside_code_regions:
  assumes "line = pre @ CHAR_AT # c # rest"
    and "noMatchBefore pre"
    and "\<not> isSpace c"
  shows "atMatch line = Some (takeWhile (\<lambda>x. \<not> isSpace x) (c # rest))
         \<and> processLine cwd fp importMap line \<noteq> [line]
         \<and> processLines cwd fp importMap (before @ [line] @ after) =
             processLines cwd fp importMap before @ processLine cwd fp importMap line
               @ processLines cwd fp importMap after
         \<and> \<lparr>lineNo = i + length before + 1,
              importPath = takeWhile (\<lambda>x. \<not> isSpace x) (c # rest),
              lineContext = trim line\<rparr> \<in> set (scanLines i (before @ [line] @ after))
         \<and> (\<forall>files content r.
               files fp = Some content \<and> split CHAR_LF content = before @ [line] @ after \<longrightarrow>
                 generateGeminiTreeOutput cwd files [fp] importMap =
                   Inr (join [CHAR_LF]
                         (processLines cwd fp importMap before @ processLine cwd fp importMap line
                          @ processLines cwd fp importMap after))
                 \<and> \<lparr>lineNo = length before + 1,
                      importPath = takeWhile (\<lambda>x. \<not> isSpace x) (c # rest),
                      lineContext = trim line\<rparr> \<in> set (atImports (analyzeClaudeFile content r fp)))"
proof -
  have m: "atMatch line = Some (takeWhile (\<lambda>x. \<not> isSpace x) (c # rest))"
    unfolding assms(1) using assms(2) assms(3) by (rule atMatch_leftmost)
  have n: "processLine cwd fp importMap line \<noteq> [line]"
    using m by (rule processLine_not_literal)
  have a: "processLines cwd fp importMap (before @ [line] @ after) =
             processLines cwd fp importMap before @ processLine cwd fp importMap line
               @ processLines cwd fp importMap after"
    by (simp add: processLines_append)
  have s: "\<lparr>lineNo = j + length before + 1,
              importPath = takeWhile (\<lambda>x. \<not> isSpace x) (c # rest),
              lineContext = trim line\<rparr> \<in> set (scanLines j (before @ [line] @ after))" for j
    using m by (simp add: scanLines_append)
  have t: "generateGeminiTreeOutput cwd files [fp] importMap =
                   Inr (join [CHAR_LF]
                         (processLines cwd fp importMap before @ processLine cwd fp importMap line
                          @ processLines cwd fp importMap after))
                 \<and> \<lparr>lineNo = length before + 1,
                      importPath = takeWhile (\<lambda>x. \<not> isSpace x) (c # rest),
                      lineContext = trim line\<rparr> \<in> set (atImports (analyzeClaudeFile content r fp))"
    if "files fp = Some content \<and> split CHAR_LF content = before @ [line] @ after" for files content r
    using that a s [of 0] by (simp add: generateGeminiTreeOutput_single analyzeClaudeFile_def Let_def)
  from m n a s [of i] t show ?thesis by blast
qed

text \<open>
  The theorem at a directive inside an inline code span, after an \<open>@\<close> followed by a
  space, between two fence lines.
\<close>

theorem directive_recognized_inside_code_regions_witness:
  "atMatch (js ''me @ home `@./x.md`'') = Some (js ''./x.md`'')
   \<and> generateGeminiTreeOutput (js ''/'')
        (map_of [(js ''/doc.md'', js ''```\<newline>me @ home `@./x.md`\<newline>```'')])
        [js ''/doc.md'']
        (map_of [(js ''/x.md'', js ''X'')])
      = Inr (js ''```\<newline><!-- Import failed: ./x.md` -->\<newline>```'')"
proof -
  let ?m = "map_of [(js ''/x.md'', js ''X'')]"
  let ?c = "js ''```\<newline>me @ home `@./x.md`\<newline>```''"
  let ?files = "map_of [(js ''/doc.md'', ?c)]"
  have l: "js ''me @ home `@./x.md`'' = js ''me @ home `'' @ CHAR_AT # of_nat (of_char CHR ''.'') # js ''/x.md`''"
    by (simp add: js_def CHAR_AT_def)
  have h2: "noMatchBefore (js ''me @ home `'')" by (simp add: js_def CHAR_AT_def isSpace_def)
  have h3: "\<not> isSpace (of_nat (of_char CHR ''.''))" by (simp add: isSpace_def)
  have f: "?files (js ''/doc.md'') = Some ?c \<and> split CHAR_LF ?c = [js ''```''] @ [js ''me @ home `@./x.md`''] @ [js ''```'']"
    by (simp add: js_eval)
  have e: "takeWhile (\<lambda>x. \<not> isSpace x) (of_nat (of_char CHR ''.'') # js ''/x.md`'') = js ''./x.md`''"
     "join [CHAR_LF] (processLines (js ''/'') (js ''/doc.md'') ?m [js ''```'']
        @ processLine (js ''/'') (js ''/doc.md'') ?m (js ''me @ home `@./x.md`'')
        @ processLines (js ''/'') (js ''/doc.md'') ?m [js ''```''])
      = js ''```\<newline><!-- Import failed: ./x.md` -->\<newline>```''"
    by (simp_all add: js_eval)
  from directive_recognized_inside_code_regions
    [OF l h2 h3, of "js ''/''" "js ''/doc.md''" ?m "[js ''```'']" "[js ''```'']"] f e
  show ?thesis by simp
qed

text \<open>
  C4 as stated fails. The directive inside the fenced block is replaced by the imported
  text; the one inside the inline code span is recognized with the closing backtick as
  part of its path and replaced by an import-failed marker; \<open>analyzeClaudeFile\<close>
  reports both as imports.
\<close>

theorem directive_in_code_region_replaced_counterexample:
  "generateGeminiTreeOutput (js ''/'')
     (map_of [(js ''/doc.md'', js ''```\<newline>@./x.md\<newline>```\<newline>use `@./x.md` here'')])
     [js ''/doc.md'']
     (map_of [(js ''/x.md'', js ''X'')])
   = Inr (js ''```\<newline><!-- Imported from: ./x.md -->\<newline>X\<newline><!-- End of import from: ./x.md -->\<newline>```\<newline><!-- Import failed: ./x.md` -->'')
   \<and> map importPath (atImports (analyzeClaudeFile (js ''```\<newline>@./x.md\<newline>```\<newline>use `@./x.md` here'') (js ''repo'') (js ''doc.md'')))
     = [js ''./x.md'', js ''./x.md`'']"
  by (simp add: js_eval)

subsection \<open>Flat mode: order of the blocks\<close>

text \<open>
  C5, as amended. In flat mode the blocks are emitted in the order of the list
  \<open>processedFiles\<close> that the caller passes, the block of its first entry first: block
  \<open>i\<close> of the output is the begin marker, the trimmed content and the end marker of
  entry \<open>i\<close>. The renderer does not compute an encounter order itself; for the list
  \<open>main, header, title, footer\<close> the block order is \<open>main, header, title, footer\<close>.
\<close>

theorem flat_blocks_follow_processedFiles:
  assumes "claudeOutputArray files processedFiles = Inr output"
    and "i < length processedFiles"
  shows "output ! (3 * i) = js ''--- File: '' @ processedFiles ! i @ js '' ---''
         \<and> (\<exists>content. files (processedFiles ! i) = Some content \<and> output ! (3 * i + 1) = trim content)
         \<and> output ! (3 * i + 2) = js ''--- End of File: '' @ processedFiles ! i @ js '' ---''"
proof -
  let ?a = "\<lambda>fp. js ''--- File: '' @ fp @ js '' ---''"
  let ?b = "\<lambda>fp. trim (the (files fp))"
  let ?c = "\<lambda>fp. js ''--- End of File: '' @ fp @ js '' ---''"
  from claudeOutputArray_blocks [OF assms(1)]
  have out: "output = concat (map (\<lambda>fp. [?a fp, ?b fp, ?c fp]) processedFiles)"
    and d: "\<forall>fp\<in>set processedFiles. files fp \<noteq> None" by simp_all
  from d assms(2) obtain content where c: "files (processedFiles ! i) = Some content"
    by (metis nth_mem option.exhaust)
  from concat_triples_nth [OF assms(2), of ?a ?b ?c] c show ?thesis unfolding out by simp
qed

text \<open>
  The theorem at the list \<open>main, header, title, footer\<close>: the third block is the one of
  \<open>title\<close>.
\<close>

theorem flat_blocks_follow_processedFiles_witness:
  "claudeOutputArray
      (map_of [(js ''main.md'', js ''Main\<newline>@./header.md\<newline>@./footer.md''),
               (js ''header.md'', js ''Header\<newline>@./title.md''),
               (js ''title.md'', js ''Title''),
               (js ''footer.md'', js ''Footer'')])
      [js ''main.md'', js ''header.md'', js ''title.md'', js ''footer.md'']
    = Inr [js ''--- File: main.md ---'', js ''Main\<newline>@./header.md\<newline>@./footer.md'', js ''--- End of File: main.md ---'',
           js ''--- File: header.md ---'', js ''Header\<newline>@./title.md'', js ''--- End of File: header.md ---'',
           js ''--- File: title.md ---'', js ''Title'', js ''--- End of File: title.md ---'',
           js ''--- File: footer.md ---'', js ''Footer'', js ''--- End of File: footer.md ---'']
   \<and> [js ''--- File: main.md ---'', js ''Main\<newline>@./header.md\<newline>@./footer.md'', js ''--- End of File: main.md ---'',
           js ''--- File: header.md ---'', js ''Header\<newline>@./title.md'', js ''--- End of File: header.md ---'',
           js ''--- File: title.md ---'', js ''Title'', js ''--- End of File: title.md ---'',
           js ''--- File: footer.md ---'', js ''Footer'', js ''--- End of File: footer.md ---''] ! (3 * 2)
       = js ''--- File: '' @ [js ''main.md'', js ''header.md'', js ''title.md'', js ''footer.md''] ! 2 @ js '' ---''"
proof -
  let ?files = "map_of [(js ''main.md'', js ''Main\<newline>@./header.md\<newline>@./footer.md''),
               (js ''header.md'', js ''Header\<newline>@./title.md''),
               (js ''title.md'', js ''Title''),
               (js ''footer.md'', js ''Footer'')]"
  let ?pfs = "[js ''main.md'', js ''header.md'', js ''title.md'', js ''footer.md'']"
  have h: "claudeOutputArray ?files ?pfs
    = Inr [js ''--- File: main.md ---'', js ''Main\<newline>@./header.md\<newline>@./footer.md'', js ''--- End of File: main.md ---'',
           js ''--- File: header.md ---'', js ''Header\<newline>@./title.md'', js ''--- End of File: header.md ---'',
           js ''--- File: title.md ---'', js ''Title'', js ''--- End of File: title.md ---'',
           js ''--- File: footer.md ---'', js ''Footer'', js ''--- End of File: footer.md ---'']"
    by (simp add: js_eval)
  have i: "2 < length ?pfs" by simp
  from flat_blocks_follow_processedFiles [OF h i] h show ?thesis by blast
qed

text \<open>
  C5 as stated fails. \<open>main\<close> refers to \<open>header\<close> then \<open>footer\<close>, and \<open>header\<close> refers
  to \<open>title\<close>; for the list \<open>main, header, footer, title\<close> the block order is that of
  the list, not the depth-first preorder.
\<close>

theorem flat_order_is_caller_order_counterexample:
  "map importPath (atImports (analyzeClaudeFile (js ''Main\<newline>@./header.md\<newline>@./footer.md'') (js ''repo'') (js ''main.md'')))
     = [js ''./header.md'', js ''./footer.md'']
   \<and> map importPath (atImports (analyzeClaudeFile (js ''Header\<newline>@./title.md'') (js ''repo'') (js ''header.md'')))
     = [js ''./title.md'']
   \<and> generateClaudeStyleOutput
      (map_of [(js ''main.md'', js ''Main\<newline>@./header.md\<newline>@./footer.md''),
               (js ''header.md'', js ''Header\<newline>@./title.md''),
               (js ''title.md'', js ''Title''),
               (js ''footer.md'', js ''Footer'')])
      [js ''main.md'', js ''header.md'', js ''footer.md'', js ''title.md'']
    = Inr (js ''--- File: main.md ---\<newline>\<newline>Main\<newline>@./header.md\<newline>@./footer.md\<newline>\<newline>--- End of File: main.md ---\<newline>\<newline>--- File: header.md ---\<newline>\<newline>Header\<newline>@./title.md\<newline>\<newline>--- End of File: header.md ---\<newline>\<newline>--- File: footer.md ---\<newline>\<newline>Footer\<newline>\<newline>--- End of File: footer.md ---\<newline>\<newline>--- File: title.md ---\<newline>\<newline>Title\<newline>\<newline>--- End of File: title.md ---'')"
  by (simp add: js_eval)

subsection \<open>Failed imports\<close>

text \<open>
  C6, as amended. The one directive failure of the code is a resolved path with no entry,
  or with an empty entry, in the import map. Its line is replaced by the marker
  \<open><!-- Import failed: p -->\<close> and the loop goes on with the next line. No directive ends
  the run: it ends with a TypeError exactly when a processed file is missing from
  \<open>files\<close>. Path traversal, URL schemes, binary content and cycles are not detected.
\<close>

theorem failed_lookup_leaves_marker_and_continues:
  assumes "atMatch line = Some p"
    and "importMap (resolve cwd [dirname fp, p]) = None
         \<or> importMap (resolve cwd [dirname fp, p]) = Some []"
  shows "processLines cwd fp importMap (line # rest) =
           (js ''<!-- Import failed: '' @ p @ js '' -->'') # processLines cwd fp importMap rest
         \<and> (\<forall>files processedFiles.
               generateGeminiTreeOutput cwd files processedFiles importMap = Inl TypeError
               \<longleftrightarrow> (\<exists>f\<in>set processedFiles. files f = None))"
proof -
  have "generateGeminiTreeOutput cwd files processedFiles importMap = Inl TypeError
               \<longleftrightarrow> (\<exists>f\<in>set processedFiles. files f = None)" for files processedFiles
    using geminiOutputArray_Inl [of cwd files processedFiles importMap TypeError]
    by (auto simp: generateGeminiTreeOutput_def split: sum.splits)
  moreover have "processLine cwd fp importMap line = [js ''<!-- Import failed: '' @ p @ js '' -->'']"
    using assms by (rule processLine_failed)
  ultimately show ?thesis by simp
qed

text \<open>
  The theorem at a missing file followed by an import that succeeds and a plain line.
\<close>

theorem failed_lookup_leaves_marker_and_continues_witness:
  "atMatch (js ''@./missing.md'') = Some (js ''./missing.md'')
   \<and> processLines (js ''/'') (js ''/a.md'') (map_of [(js ''/b.md'', js ''B'')])
        [js ''@./missing.md'', js ''@./b.md'', js ''tail'']
      = [js ''<!-- Import failed: ./missing.md -->'',
         js ''<!-- Imported from: ./b.md -->'', js ''B'', js ''<!-- End of import from: ./b.md -->'',
         js ''tail'']"
proof -
  let ?m = "map_of [(js ''/b.md'', js ''B'')]"
  have h1: "atMatch (js ''@./missing.md'') = Some (js ''./missing.md'')" by (simp add: js_eval)
  have h2: "?m (resolve (js ''/'') [dirname (js ''/a.md''), js ''./missing.md'']) = None
     \<or> ?m (resolve (js ''/'') [dirname (js ''/a.md''), js ''./missing.md'']) = Some []"
    by (simp add: js_eval)
  have rest: "processLines (js ''/'') (js ''/a.md'') ?m [js ''@./b.md'', js ''tail'']
     = [js ''<!-- Imported from: ./b.md -->'', js ''B'', js ''<!-- End of import from: ./b.md -->'',
         js ''tail'']"
    by (simp add: js_eval)
  have m: "js ''<!-- Import failed: '' @ js ''./missing.md'' @ js '' -->'' = js ''<!-- Import failed: ./missing.md -->''"
    by (simp add: js_def)
  from failed_lookup_leaves_marker_and_continues
    [where importMap = ?m and rest = "[js ''@./b.md'', js ''tail'']", OF h1 h2] h1 rest m
  show ?thesis by simp
qed

text \<open>
  C6 as stated fails for the failures that the code does not detect: a file that imports
  itself, and a path that leaves the working directory through \<open>..\<close> segments, are both
  substituted with the text of the import map; no error marker is written.
\<close>

theorem cycle_and_traversal_not_marked_counterexample:
  "generateGeminiTreeOutput (js ''/'')
     (map_of [(js ''/self.md'', js ''intro\<newline>@./self.md\<newline>outro'')])
     [js ''/self.md'']
     (map_of [(js ''/self.md'', js ''intro\<newline>@./self.md\<newline>outro'')])
   = Inr (js ''intro\<newline><!-- Imported from: ./self.md -->\<newline>intro\<newline>@./self.md\<newline>outro\<newline><!-- End of import from: ./self.md -->\<newline>outro'')
   \<and> generateGeminiTreeOutput (js ''/srv/project'')
     (map_of [(js ''docs/a.md'', js ''@../../../etc/passwd'')])
     [js ''docs/a.md'']
     (map_of [(js ''/etc/passwd'', js ''root:x:0:0'')])
   = Inr (js ''<!-- Imported from: ../../../etc/passwd -->\<newline>root:x:0:0\<newline><!-- End of import from: ../../../etc/passwd -->'')"
  by (simp add: js_eval)

subsection \<open>Documents without directives\<close>

text \<open>
  C7, as amended. For a document in which no line holds a directive, flat mode yields one
  block: the begin marker, the document's text with the whitespace at both ends trimmed,
  and the end marker, separated by blank lines. Hierarchical mode yields the document's
  text itself, unchanged and without any marker.
\<close>

theorem document_without_directives:
  assumes "files fp = Some content"
    and "\<forall>l\<in>set (split CHAR_LF content). atMatch l = None"
  shows "generateClaudeStyleOutput files [fp] =
           Inr (js ''--- File: '' @ fp @ js '' ---'' @ [CHAR_LF, CHAR_LF] @ trim content
                @ [CHAR_LF, CHAR_LF] @ js ''--- End of File: '' @ fp @ js '' ---'')
         \<and> generateGeminiTreeOutput cwd files [fp] importMap = Inr content"
proof -
  have "processLines cwd fp importMap (split CHAR_LF content) = split CHAR_LF content"
    using assms(2) by (rule processLines_literal)
  then have "join [CHAR_LF] (processLines cwd fp importMap (split CHAR_LF content)) = content"
    by (simp add: join_split)
  with assms(1) show ?thesis
    by (simp add: generateClaudeStyleOutput_def generateGeminiTreeOutput_def)
qed

text \<open>
  The theorem at \<open>shared/title.md\<close> of the source.
\<close>

theorem document_without_directives_witness:
  "generateClaudeStyleOutput
      (map_of [(js ''shared/title.md'', js ''# Project Title\<newline>\<newline>This is the shared title content.\<newline>'')])
      [js ''shared/title.md'']
    = Inr (js ''--- File: shared/title.md ---\<newline>\<newline># Project Title\<newline>\<newline>This is the shared title content.\<newline>\<newline>--- End of File: shared/title.md ---'')
   \<and> generateGeminiTreeOutput (js ''/'')
      (map_of [(js ''shared/title.md'', js ''# Project Title\<newline>\<newline>This is the shared title content.\<newline>'')])
      [js ''shared/title.md''] Map.empty
    = Inr (js ''# Project Title\<newline>\<newline>This is the shared title content.\<newline>'')"
proof -
  let ?c = "js ''# Project Title\<newline>\<newline>This is the shared title content.\<newline>''"
  let ?files = "map_of [(js ''shared/title.md'', ?c)]"
  have h1: "?files (js ''shared/title.md'') = Some ?c" by simp
  have h2: "\<forall>l\<in>set (split CHAR_LF ?c). atMatch l = None" by (simp add: js_eval)
  have t: "js ''--- File: '' @ js ''shared/title.md'' @ js '' ---'' @ [CHAR_LF, CHAR_LF] @ trim ?c
                @ [CHAR_LF, CHAR_LF] @ js ''--- End of File: '' @ js ''shared/title.md'' @ js '' ---''
     = js ''--- File: shared/title.md ---\<newline>\<newline># Project Title\<newline>\<newline>This is the shared title content.\<newline>\<newline>--- End of File: shared/title.md ---''"
    by (simp add: js_eval)
  from document_without_directives [where files = ?files, OF h1 h2, of "js ''/''" Map.empty] t
  show ?thesis by simp
qed

text \<open>
  C7 as stated fails. The content of the flat block of \<open>shared/title.md\<close> has lost the
  final line feed of the source, and the hierarchical output has no marker around the
  text.
\<close>

theorem flat_block_is_trimmed_and_tree_has_no_marker_counterexample:
  "claudeOutputArray
      (map_of [(js ''shared/title.md'', js ''# Project Title\<newline>\<newline>This is the shared title content.\<newline>'')])
      [js ''shared/title.md'']
    = Inr [js ''--- File: shared/title.md ---'',
           js ''# Project Title\<newline>\<newline>This is the shared title content.'',
           js ''--- End of File: shared/title.md ---'']
   \<and> js ''# Project Title\<newline>\<newline>This is the shared title content.''
       \<noteq> js ''# Project Title\<newline>\<newline>This is the shared title content.\<newline>''
   \<and> generateGeminiTreeOutput (js ''/'')
      (map_of [(js ''shared/title.md'', js ''# Project Title\<newline>\<newline>This is the shared title content.\<newline>'')])
      [js ''shared/title.md''] Map.empty
    = Inr (js ''# Project Title\<newline>\<newline>This is the shared title content.\<newline>'')"
  by (simp add: js_eval)

subsection \<open>Import markers\<close>

text \<open>
  C8. In hierarchical mode, for every processed file and every line of it whose directive
  is imported, the output of the file holds, in place of the line, the marker
  \<open><!-- Imported from: p -->\<close>, the imported text and the marker
  \<open><!-- End of import from: p -->\<close>, where \<open>p\<close> is the path as it is written after the
  \<open>@\<close> in the line, not the resolved path under which the import map is read.
\<close>

theorem import_markers_carry_raw_path:
  assumes "geminiOutputArray cwd files processedFiles importMap = Inr output"
    and "i < length processedFiles"
    and "files (processedFiles ! i) = Some content"
    and "split CHAR_LF content = before @ [line] @ after"
    and "atMatch line = Some p"
    and "importMap (resolve cwd [dirname (processedFiles ! i), p]) = Some t"
    and "t \<noteq> []"
  shows "generateGeminiTreeOutput cwd files processedFiles importMap = Inr (join [CHAR_LF, CHAR_LF] output)
         \<and> length output = length processedFiles
         \<and> output ! i =
             join [CHAR_LF]
               (processLines cwd (processedFiles ! i) importMap before
                @ [js ''<!-- Imported from: '' @ p @ js '' -->'', trim t,
                   js ''<!-- End of import from: '' @ p @ js '' -->'']
                @ processLines cwd (processedFiles ! i) importMap after)
         \<and> (\<exists>pre post. line = pre @ CHAR_AT # p @ post \<and> noMatchBefore pre
               \<and> p \<noteq> [] \<and> (\<forall>c\<in>set p. \<not> isSpace c) \<and> (post \<noteq> [] \<longrightarrow> isSpace (hd post)))"
proof -
  have 1: "generateGeminiTreeOutput cwd files processedFiles importMap = Inr (join [CHAR_LF, CHAR_LF] output)"
    using assms(1) by (simp add: generateGeminiTreeOutput_def)
  from geminiOutputArray_nth [OF assms(1)] assms(2,3)
  have 2: "length output = length processedFiles"
    and "output ! i = join [CHAR_LF] (processLines cwd (processedFiles ! i) importMap (split CHAR_LF content))"
    by auto
  with processLines_directive [of line p importMap cwd "processedFiles ! i" t before after] assms(4-7)
  have 3: "output ! i =
             join [CHAR_LF]
               (processLines cwd (processedFiles ! i) importMap before
                @ [js ''<!-- Imported from: '' @ p @ js '' -->'', trim t,
                   js ''<!-- End of import from: '' @ p @ js '' -->'']
                @ processLines cwd (processedFiles ! i) importMap after)" by simp
  from atMatch_decompose [OF assms(5)] obtain pre c rest where
    d: "line = pre @ CHAR_AT # c # rest" "noMatchBefore pre" "\<not> isSpace c"
       "p = takeWhile (\<lambda>x. \<not> isSpace x) (c # rest)" by blast
  let ?post = "dropWhile (\<lambda>x. \<not> isSpace x) (c # rest)"
  have "line = pre @ CHAR_AT # p @ ?post" using d(1,4) by simp
  moreover have "p \<noteq> []" using d(3,4) by simp
  moreover have "\<forall>c\<in>set p. \<not> isSpace c" using d(4) by (auto dest: set_takeWhileD)
  moreover have "?post \<noteq> [] \<longrightarrow> isSpace (hd ?post)"
    using hd_dropWhile [of "\<lambda>x. \<not> isSpace x" "c # rest"] by auto
  ultimately have 4: "\<exists>pre post. line = pre @ CHAR_AT # p @ post \<and> noMatchBefore pre
               \<and> p \<noteq> [] \<and> (\<forall>c\<in>set p. \<not> isSpace c) \<and> (post \<noteq> [] \<longrightarrow> isSpace (hd post))"
    using d(2) by blast
  from 1 2 3 4 show ?thesis by blast
qed

text \<open>
  The theorem at the second of two processed files, with a directive whose written path
  \<open>./x.md\<close> differs from the resolved path \<open>/w/docs/x.md\<close>.
\<close>

theorem import_markers_carry_raw_path_witness:
  "resolve (js ''/w'') [dirname (js ''docs/a.md''), js ''./x.md''] = js ''/w/docs/x.md''
   \<and> generateGeminiTreeOutput (js ''/w'')
        (map_of [(js ''intro.md'', js ''Intro''), (js ''docs/a.md'', js ''A\<newline>see @./x.md now\<newline>Z'')])
        [js ''intro.md'', js ''docs/a.md'']
        (map_of [(js ''/w/docs/x.md'', js ''X'')])
     = Inr (js ''Intro\<newline>\<newline>A\<newline><!-- Imported from: ./x.md -->\<newline>X\<newline><!-- End of import from: ./x.md -->\<newline>Z'')"
proof -
  let ?files = "map_of [(js ''intro.md'', js ''Intro''), (js ''docs/a.md'', js ''A\<newline>see @./x.md now\<newline>Z'')]"
  let ?pfs = "[js ''intro.md'', js ''docs/a.md'']"
  let ?m = "map_of [(js ''/w/docs/x.md'', js ''X'')]"
  let ?out = "[js ''Intro'', js ''A\<newline><!-- Imported from: ./x.md -->\<newline>X\<newline><!-- End of import from: ./x.md -->\<newline>Z'']"
  have h1: "geminiOutputArray (js ''/w'') ?files ?pfs ?m = Inr ?out" by (simp add: js_eval)
  have h2: "1 < length ?pfs" by simp
  have h3: "?files (?pfs ! 1) = Some (js ''A\<newline>see @./x.md now\<newline>Z'')" by (simp add: js_def)
  have h4: "split CHAR_LF (js ''A\<newline>see @./x.md now\<newline>Z'') = [js ''A''] @ [js ''see @./x.md now''] @ [js ''Z'']"
    by (simp add: js_eval)
  have h5: "atMatch (js ''see @./x.md now'') = Some (js ''./x.md'')" by (simp add: js_eval)
  have r: "resolve (js ''/w'') [dirname (js ''docs/a.md''), js ''./x.md''] = js ''/w/docs/x.md''"
    by (simp add: js_eval)
  have h6: "?m (resolve (js ''/w'') [dirname (?pfs ! 1), js ''./x.md'']) = Some (js ''X'')"
    by (simp add: r)
  have h7: "js ''X'' \<noteq> []" by (simp add: js_def)
  have j: "join [CHAR_LF, CHAR_LF] ?out = js ''Intro\<newline>\<newline>A\<newline><!-- Imported from: ./x.md -->\<newline>X\<newline><!-- End of import from: ./x.md -->\<newline>Z''"
    by (simp add: js_eval)
  from import_markers_carry_raw_path [where importMap = ?m and files = ?files, OF h1 h2 h3 h4 h5 h6 h7] r j
  show ?thesis by simp
qed

subsection \<open>Several directives on one line\<close>

text \<open>
  C9, as amended. On every line only the first directive is recognized: the leftmost
  \<open>@\<close> followed by a code unit that is not whitespace, with the run of such code units
  after it as its path. \<open>analyzeClaudeFile\<close> reports exactly one import for the line, this
  one; in hierarchical mode the whole line is replaced by the rendering of this directive,
  whatever follows it on the line. Every match of a line is of this form.
\<close>

theorem only_first_directive_of_a_line:
  assumes "split CHAR_LF content = before @ [line] @ after"
    and "line = pre @ CHAR_AT # c # rest"
    and "noMatchBefore pre"
    and "\<not> isSpace c"
  shows "atMatch line = Some (takeWhile (\<lambda>x. \<not> isSpace x) (c # rest))
         \<and> filter (\<lambda>e. lineNo e = length before + 1) (atImports (analyzeClaudeFile content r fp))
             = [\<lparr>lineNo = length before + 1,
                 importPath = takeWhile (\<lambda>x. \<not> isSpace x) (c # rest),
                 lineContext = trim line\<rparr>]
         \<and> (\<forall>files. files fp = Some content \<longrightarrow>
               generateGeminiTreeOutput cwd files [fp] importMap =
                 Inr (join [CHAR_LF]
                       (processLines cwd fp importMap before
                        @ (case importMap (resolve cwd [dirname fp, takeWhile (\<lambda>x. \<not> isSpace x) (c # rest)]) of
                             None \<Rightarrow> [js ''<!-- Import failed: '' @ takeWhile (\<lambda>x. \<not> isSpace x) (c # rest) @ js '' -->'']
                           | Some t \<Rightarrow>
                               if t \<noteq> []
                               then [js ''<!-- Imported from: '' @ takeWhile (\<lambda>x. \<not> isSpace x) (c # rest) @ js '' -->'',
                                     trim t,
                                     js ''<!-- End of import from: '' @ takeWhile (\<lambda>x. \<not> isSpace x) (c # rest) @ js '' -->'']
                               else [js ''<!-- Import failed: '' @ takeWhile (\<lambda>x. \<not> isSpace x) (c # rest) @ js '' -->''])
                        @ processLines cwd fp importMap after)))
         \<and> (\<forall>l q. atMatch l = Some q \<longrightarrow>
               (\<exists>pre c rest. l = pre @ CHAR_AT # c # rest \<and> noMatchBefore pre \<and> \<not> isSpace c
                  \<and> q = takeWhile (\<lambda>x. \<not> isSpace x) (c # rest)))"
proof -
  let ?p = "takeWhile (\<lambda>x. \<not> isSpace x) (c # rest)"
  have m: "atMatch line = Some ?p"
    unfolding assms(2) using assms(3) assms(4) by (rule atMatch_leftmost)
  have f: "filter (\<lambda>e. lineNo e = length before + 1) (atImports (analyzeClaudeFile content r fp))
             = [\<lparr>lineNo = length before + 1, importPath = ?p, lineContext = trim line\<rparr>]"
    using scanLines_line_filter [OF m, of 0 before after] assms(1)
    by (simp add: analyzeClaudeFile_def Let_def)
  have pl: "processLine cwd fp importMap line =
      (case importMap (resolve cwd [dirname fp, ?p]) of
         None \<Rightarrow> [js ''<!-- Import failed: '' @ ?p @ js '' -->'']
       | Some t \<Rightarrow>
           if t \<noteq> []
           then [js ''<!-- Imported from: '' @ ?p @ js '' -->'', trim t,
                 js ''<!-- End of import from: '' @ ?p @ js '' -->'']
           else [js ''<!-- Import failed: '' @ ?p @ js '' -->''])"
    using m by (simp add: processLine_def split: option.splits)
  have g: "generateGeminiTreeOutput cwd files [fp] importMap =
                 Inr (join [CHAR_LF]
                       (processLines cwd fp importMap before
                        @ (case importMap (resolve cwd [dirname fp, ?p]) of
                             None \<Rightarrow> [js ''<!-- Import failed: '' @ ?p @ js '' -->'']
                           | Some t \<Rightarrow>
                               if t \<noteq> []
                               then [js ''<!-- Imported from: '' @ ?p @ js '' -->'', trim t,
                                     js ''<!-- End of import from: '' @ ?p @ js '' -->'']
                               else [js ''<!-- Import failed: '' @ ?p @ js '' -->''])
                        @ processLines cwd fp importMap after))"
    if "files fp = Some content" for files
    using that assms(1) pl by (simp add: generateGeminiTreeOutput_single processLines_append)
  have d: "\<exists>pre c rest. l = pre @ CHAR_AT # c # rest \<and> noMatchBefore pre \<and> \<not> isSpace c
                  \<and> q = takeWhile (\<lambda>x. \<not> isSpace x) (c # rest)"
    if "atMatch l = Some q" for l q
    using that by (rule atMatch_decompose)
  from m f g d show ?thesis by blast
qed

text \<open>
  The theorem at a line with an \<open>@\<close> followed by a space and then two directives.
\<close>

theorem only_first_directive_of_a_line_witness:
  "atImports (analyzeClaudeFile (js ''intro\<newline>a @ b @./a.md @./b.md'') (js ''repo'') (js ''/doc.md''))
     = [\<lparr>lineNo = 2, importPath = js ''./a.md'', lineContext = js ''a @ b @./a.md @./b.md''\<rparr>]
   \<and> generateGeminiTreeOutput (js ''/'')
       (map_of [(js ''/doc.md'', js ''intro\<newline>a @ b @./a.md @./b.md'')]) [js ''/doc.md'']
       (map_of [(js ''/a.md'', js ''A''), (js ''/b.md'', js ''B'')])
     = Inr (js ''intro\<newline><!-- Imported from: ./a.md -->\<newline>A\<newline><!-- End of import from: ./a.md -->'')"
proof -
  let ?c = "js ''intro\<newline>a @ b @./a.md @./b.md''"
  let ?files = "map_of [(js ''/doc.md'', ?c)]"
  let ?m = "map_of [(js ''/a.md'', js ''A''), (js ''/b.md'', js ''B'')]"
  have h1: "split CHAR_LF ?c = [js ''intro''] @ [js ''a @ b @./a.md @./b.md''] @ []"
    by (simp add: js_eval)
  have h2: "js ''a @ b @./a.md @./b.md'' = js ''a @ b '' @ CHAR_AT # of_nat (of_char CHR ''.'') # js ''/a.md @./b.md''"
    by (simp add: js_def CHAR_AT_def)
  have h3: "noMatchBefore (js ''a @ b '')" by (simp add: js_def CHAR_AT_def isSpace_def)
  have h4: "\<not> isSpace (of_nat (of_char CHR ''.''))" by (simp add: isSpace_def)
  have f: "?files (js ''/doc.md'') = Some ?c" by simp
  have a: "atImports (analyzeClaudeFile ?c (js ''repo'') (js ''/doc.md''))
     = [\<lparr>lineNo = 2, importPath = js ''./a.md'', lineContext = js ''a @ b @./a.md @./b.md''\<rparr>]"
    by (simp add: js_eval)
  have e: "takeWhile (\<lambda>x. \<not> isSpace x) (of_nat (of_char CHR ''.'') # js ''/a.md @./b.md'') = js ''./a.md''"
    by (simp add: js_eval)
  have r: "?m (resolve (js ''/'') [dirname (js ''/doc.md''), js ''./a.md'']) = Some (js ''A'')"
    by (simp add: js_eval)
  have j: "join [CHAR_LF]
             (processLines (js ''/'') (js ''/doc.md'') ?m [js ''intro'']
              @ [js ''<!-- Imported from: '' @ js ''./a.md'' @ js '' -->'', trim (js ''A''),
                 js ''<!-- End of import from: '' @ js ''./a.md'' @ js '' -->'']
              @ processLines (js ''/'') (js ''/doc.md'') ?m [])
     = js ''intro\<newline><!-- Imported from: ./a.md -->\<newline>A\<newline><!-- End of import from: ./a.md -->''"
    by (simp add: js_eval)
  have n: "js ''A'' \<noteq> []" by (simp add: js_def)
  from only_first_directive_of_a_line
    [OF h1 h2 h3 h4, of "js ''repo''" "js ''/doc.md''" "js ''/''" ?m] f
  have "generateGeminiTreeOutput (js ''/'') ?files [js ''/doc.md''] ?m =
      Inr (join [CHAR_LF]
             (processLines (js ''/'') (js ''/doc.md'') ?m [js ''intro'']
              @ [js ''<!-- Imported from: '' @ js ''./a.md'' @ js '' -->'', trim (js ''A''),
                 js ''<!-- End of import from: '' @ js ''./a.md'' @ js '' -->'']
              @ processLines (js ''/'') (js ''/doc.md'') ?m []))"
    unfolding e using r n by simp
  with a j show ?thesis by simp
qed

text \<open>
  C9 as stated fails. For a line with two directives \<open>analyzeClaudeFile\<close> reports the
  first alone, and the hierarchical output imports the first alone although both files
  are in the import map.
\<close>

theorem second_directive_on_line_ignored_counterexample:
  "atImports (analyzeClaudeFile (js ''@./a.md @./b.md'') (js ''repo'') (js ''doc.md''))
     = [\<lparr>lineNo = 1, importPath = js ''./a.md'', lineContext = js ''@./a.md @./b.md''\<rparr>]
   \<and> generateGeminiTreeOutput (js ''/'')
       (map_of [(js ''/doc.md'', js ''@./a.md @./b.md'')]) [js ''/doc.md'']
       (map_of [(js ''/a.md'', js ''A''), (js ''/b.md'', js ''B'')])
     = Inr (js ''<!-- Imported from: ./a.md -->\<newline>A\<newline><!-- End of import from: ./a.md -->'')"
  by (simp add: js_eval)

subsection \<open>Dependence on the working directory\<close>

text \<open>
  C10, as amended. \<open>generateClaudeStyleOutput\<close> is a function of its two arguments alone.
  \<open>generateGeminiTreeOutput\<close> also reads the working directory of the process, through
  \<open>path.resolve\<close>; its output is a function of its three arguments and that directory,
  and does not depend on the directory when every processed file path is absolute.
\<close>

theorem tree_output_independent_of_cwd_for_absolute_files:
  assumes "\<forall>fp\<in>set processedFiles. fp \<noteq> [] \<and> hd fp = CHAR_FORWARD_SLASH"
  shows "generateGeminiTreeOutput cwd1 files processedFiles importMap
         = generateGeminiTreeOutput cwd2 files processedFiles importMap"
  using geminiOutputArray_cwd [OF assms, of cwd1 files importMap cwd2]
  by (simp add: generateGeminiTreeOutput_def)

text \<open>
  The theorem at an absolute file path and two working directories.
\<close>

theorem tree_output_independent_of_cwd_for_absolute_files_witness:
  "generateGeminiTreeOutput (js ''/a'') (map_of [(js ''/a/m.md'', js ''@x.md'')]) [js ''/a/m.md'']
       (map_of [(js ''/a/x.md'', js ''X'')])
     = Inr (js ''<!-- Imported from: x.md -->\<newline>X\<newline><!-- End of import from: x.md -->'')
   \<and> generateGeminiTreeOutput (js ''/b'') (map_of [(js ''/a/m.md'', js ''@x.md'')]) [js ''/a/m.md'']
       (map_of [(js ''/a/x.md'', js ''X'')])
     = Inr (js ''<!-- Imported from: x.md -->\<newline>X\<newline><!-- End of import from: x.md -->'')"
proof -
  have h: "\<forall>fp\<in>set [js ''/a/m.md'']. fp \<noteq> [] \<and> hd fp = CHAR_FORWARD_SLASH"
    by (simp add: js_eval)
  have a: "generateGeminiTreeOutput (js ''/a'') (map_of [(js ''/a/m.md'', js ''@x.md'')]) [js ''/a/m.md'']
       (map_of [(js ''/a/x.md'', js ''X'')])
     = Inr (js ''<!-- Imported from: x.md -->\<newline>X\<newline><!-- End of import from: x.md -->'')"
    by (simp add: js_eval)
  from tree_output_independent_of_cwd_for_absolute_files [OF h, of "js ''/b''" _ _ "js ''/a''"] a
  show ?thesis by simp
qed

text \<open>
  C10 as stated fails. With a relative file path the same three arguments give an import
  under one working directory and an import-failed marker under another.
\<close>

theorem tree_output_depends_on_cwd_counterexample:
  "generateGeminiTreeOutput (js ''/a'') (map_of [(js ''m.md'', js ''@x.md'')]) [js ''m.md'']
       (map_of [(js ''/a/x.md'', js ''X'')])
     = Inr (js ''<!-- Imported from: x.md -->\<newline>X\<newline><!-- End of import from: x.md -->'')
   \<and> generateGeminiTreeOutput (js ''/b'') (map_of [(js ''m.md'', js ''@x.md'')]) [js ''m.md'']
       (map_of [(js ''/a/x.md'', js ''X'')])
     = Inr (js ''<!-- Import failed: x.md -->'')"
  by (simp add: js_eval)

end
